theory Spec2Isabelle
  imports Main "HOL-Library.Sublist"
begin

section \<open>The catalog loader of streamflixx: \<open>src/hooks/useStreams.ts\<close>\<close>

text \<open>
  The hook \<open>useStreams\<close> keeps three pieces of React state (\<open>streams\<close>, \<open>loading\<close>,
  \<open>error\<close>) and offers \<open>loadStreams\<close> (also exported as \<open>retryLoad\<close>) and
  \<open>refreshStreams\<close>. \<open>loadStreams\<close> never reads the state: it only calls the three
  setters, \<open>toast\<close> and \<open>console.warn\<close>. It is modelled as the list of these calls, in
  program order, as a function of what the fetch delivers; the state after a cycle is the
  state before it with the calls applied one after the other.
\<close>

subsection \<open>Values delivered by \<open>response.json()\<close>\<close>

text \<open>
  The value \<open>data\<close> is what \<open>JSON.parse\<close> produces. The payload of a number is
  never inspected by the hook, so its representation is left as the type parameter \<open>'n\<close>.
  An object is the list of its own properties (name and value, each name once) in
  insertion order; \<open>map_of\<close> reads one.
\<close>

datatype 'n json =
    JNull
  | JBool bool
  | JNum 'n
  | JStr string
  | JArr "'n json list"
  | JObj "(string \<times> 'n json) list"

text \<open>What a \<open>throw\<close> or a rejected promise carries: an instance of \<open>Error\<close> with its
  \<open>message\<close>, or some other value.\<close>

datatype thrown = ErrorObj string | NonError

text \<open>The result of the \<open>typeof\<close> operator; \<open>typeof null\<close> and \<open>typeof []\<close> are
  both \<open>'object'\<close>.\<close>

datatype js_type = TUndefined | TObject | TBoolean | TNumber | TString

fun typeof :: "'n json \<Rightarrow> js_type" where
  "typeof JNull = TObject"
| "typeof (JBool b) = TBoolean"
| "typeof (JNum n) = TNumber"
| "typeof (JStr s) = TString"
| "typeof (JArr xs) = TObject"
| "typeof (JObj kvs) = TObject"

text \<open>\<open>typeof\<close> of the result of a property read, where \<open>None\<close> is \<open>undefined\<close>.\<close>

fun typeof_prop :: "'n json option \<Rightarrow> js_type" where
  "typeof_prop None = TUndefined"
| "typeof_prop (Some v) = typeof v"

text \<open>
  The property read \<open>stream.k\<close> for a name \<open>k\<close> among \<open>title\<close>, \<open>image\<close>,
  \<open>stream\<close>. Reading a property of \<open>null\<close> throws a \<open>TypeError\<close>, whose message is
  chosen by the JavaScript engine and is the parameter \<open>tmsg\<close>. An object yields its own
  property or \<open>undefined\<close> (none of the three names is on \<open>Object.prototype\<close>); an array
  has only indices and \<open>length\<close>; a boolean, number or string has none of the three names
  on its wrapper.
\<close>

fun get_prop :: "string \<Rightarrow> 'n json \<Rightarrow> string \<Rightarrow> thrown + 'n json option" where
  "get_prop tmsg JNull k = Inl (ErrorObj tmsg)"
| "get_prop tmsg (JObj kvs) k = Inr (map_of kvs k)"
| "get_prop tmsg (JArr xs) k = Inr None"
| "get_prop tmsg (JBool b) k = Inr None"
| "get_prop tmsg (JNum n) k = Inr None"
| "get_prop tmsg (JStr s) k = Inr None"

text \<open>
  The callback of \<open>data.filter\<close> (lines 28-35), with the left-to-right short circuit of
  \<open>&&\<close>: the first conjunct that is false ends the evaluation, and a property read that
  throws ends it with the exception.
\<close>

definition is_stream :: "string \<Rightarrow> 'n json \<Rightarrow> thrown + bool" where
  "is_stream tmsg stream =
     (if typeof stream \<noteq> TObject then Inr False
      else (case get_prop tmsg stream ''title'' of
        Inl e \<Rightarrow> Inl e
      | Inr t \<Rightarrow>
          (if typeof_prop t \<noteq> TString then Inr False
           else (case get_prop tmsg stream ''image'' of
             Inl e \<Rightarrow> Inl e
           | Inr i \<Rightarrow>
               (if typeof_prop i \<noteq> TString then Inr False
                else (case get_prop tmsg stream ''stream'' of
                  Inl e \<Rightarrow> Inl e
                | Inr u \<Rightarrow> Inr (typeof_prop u = TString)))))))"

text \<open>\<open>Array.prototype.filter\<close>: the callback runs on the elements from left to right, the
  elements it accepts are collected in order, and an exception of the callback ends the
  whole call.\<close>

fun filter_streams :: "string \<Rightarrow> 'n json list \<Rightarrow> thrown + 'n json list" where
  "filter_streams tmsg [] = Inr []"
| "filter_streams tmsg (x # xs) =
     (case is_stream tmsg x of
        Inl e \<Rightarrow> Inl e
      | Inr keep \<Rightarrow>
          (case filter_streams tmsg xs of
             Inl e \<Rightarrow> Inl e
           | Inr ys \<Rightarrow> Inr (if keep then x # ys else ys)))"

subsection \<open>What the fetch delivers\<close>

text \<open>\<open>await response.json()\<close> either rejects (the body is not JSON, or reading it
  failed) or resolves with the parsed value.\<close>

datatype 'n body = JsonRejects thrown | JsonResolves "'n json"

text \<open>\<open>await fetch('/streams.json')\<close> either rejects or resolves with a response, of
  which the hook reads \<open>ok\<close> and \<open>json()\<close>.\<close>

datatype 'n fetched = FetchRejects thrown | Response bool "'n body"

subsection \<open>Calls made by the hook\<close>

datatype variant = Destructive

record toast_args =
  title :: string
  description :: string
  variant :: "variant option"

datatype 'n call =
    SetStreams "'n json list"
  | SetLoading bool
  | SetError "string option"
  | Toast toast_args
  | ConsoleWarn string

text \<open>The decimal numeral that a template literal puts for a non-negative integer.\<close>

fun decimal :: "nat \<Rightarrow> string" where
  "decimal n =
     (if n < 10 then [char_of (48 + n)]
      else decimal (n div 10) @ [char_of (48 + n mod 10)])"

declare decimal.simps [simp del]

text \<open>\<open>Array.isArray\<close>.\<close>

fun isArray :: "'n json \<Rightarrow> bool" where
  "isArray (JArr xs) = True"
| "isArray v = False"

text \<open>Lines 27-50: the part of the \<open>try\<close> block that runs once \<open>data\<close> is known to be an
  array. The result is the calls made and the exception that ended the block, if any.\<close>

definition publish :: "string \<Rightarrow> 'n json list \<Rightarrow> 'n call list \<times> thrown option" where
  "publish tmsg data =
     (case filter_streams tmsg data of
        Inl e \<Rightarrow> ([], Some e)
      | Inr validStreams \<Rightarrow>
          ((if length validStreams \<noteq> length data
            then [ConsoleWarn (''Filtered out '' @ decimal (length data - length validStreams)
                                 @ '' invalid stream entries'')]
            else [])
           @ [SetStreams validStreams]
           @ (if length validStreams = 0
              then [SetError (Some ''No valid streams found''),
                    Toast \<lparr>title = ''No Content'',
                           description = ''No valid streams were found in the data file.'',
                           variant = Some Destructive\<rparr>]
              else []),
           None))"

text \<open>The elements of an array; the hook reads them only after \<open>Array.isArray\<close> has
  answered \<open>true\<close>.\<close>

fun elements :: "'n json \<Rightarrow> 'n json list" where
  "elements (JArr xs) = xs"
| "elements v = []"

text \<open>Lines 12-50: the \<open>try\<close> block. Each \<open>throw\<close>, and each rejection of an awaited
  promise, leaves the block with the calls made so far.\<close>

definition try_block :: "string \<Rightarrow> 'n fetched \<Rightarrow> 'n call list \<times> thrown option" where
  "try_block tmsg r =
     (let start = [SetLoading True, SetError None] in
      (case r of
         FetchRejects e \<Rightarrow> (start, Some e)
       | Response ok b \<Rightarrow>
           (if \<not> ok then (start, Some (ErrorObj ''Failed to load streams data''))
            else (case b of
               JsonRejects e \<Rightarrow> (start, Some e)
             | JsonResolves data \<Rightarrow>
                 (if \<not> isArray data
                  then (start, Some (ErrorObj ''Invalid streams data format''))
                  else (start @ fst (publish tmsg (elements data)),
                        snd (publish tmsg (elements data))))))))"

text \<open>Line 52: \<open>err instanceof Error ? err.message : 'Failed to load streams'\<close>.\<close>

fun errorMessage :: "thrown \<Rightarrow> string" where
  "errorMessage (ErrorObj m) = m"
| "errorMessage NonError = ''Failed to load streams''"

text \<open>Lines 51-58: the \<open>catch\<close> block.\<close>

definition catch_block :: "thrown \<Rightarrow> 'n call list" where
  "catch_block err =
     [SetError (Some (errorMessage err)),
      Toast \<lparr>title = ''Loading Error'', description = errorMessage err,
             variant = Some Destructive\<rparr>]"

text \<open>Lines 11-62: \<open>loadStreams\<close>, with the \<open>finally\<close> block at the end of both paths.\<close>

definition loadStreams :: "string \<Rightarrow> 'n fetched \<Rightarrow> 'n call list" where
  "loadStreams tmsg r =
     (case try_block tmsg r of
        (cs, None) \<Rightarrow> cs @ [SetLoading False]
      | (cs, Some err) \<Rightarrow> cs @ catch_block err @ [SetLoading False])"

text \<open>Lines 64-70: \<open>refreshStreams\<close>. The notification has no \<open>variant\<close>.\<close>

definition refreshing :: toast_args where
  "refreshing = \<lparr>title = ''Refreshing...'',
                  description = ''Loading latest content from streams.json'',
                  variant = None\<rparr>"

definition refreshStreams :: "string \<Rightarrow> 'n fetched \<Rightarrow> 'n call list" where
  "refreshStreams tmsg r = Toast refreshing # loadStreams tmsg r"

subsection \<open>The state the calls act on\<close>

text \<open>The three \<open>useState\<close> cells of lines 6-8, together with the notifications shown and
  the warnings logged so far.\<close>

record 'n hook =
  streams :: "'n json list"
  loading :: bool
  error :: "string option"
  toasts :: "toast_args list"
  warnings :: "string list"

definition initial :: "'n hook" where
  "initial = \<lparr>streams = [], loading = True, error = None, toasts = [], warnings = []\<rparr>"

fun perform :: "'n hook \<Rightarrow> 'n call \<Rightarrow> 'n hook" where
  "perform s (SetStreams v) = s\<lparr>streams := v\<rparr>"
| "perform s (SetLoading b) = s\<lparr>loading := b\<rparr>"
| "perform s (SetError e) = s\<lparr>error := e\<rparr>"
| "perform s (Toast t) = s\<lparr>toasts := toasts s @ [t]\<rparr>"
| "perform s (ConsoleWarn w) = s\<lparr>warnings := warnings s @ [w]\<rparr>"

definition run :: "'n call list \<Rightarrow> 'n hook \<Rightarrow> 'n hook" where
  "run cs s = foldl perform s cs"

text \<open>One complete cycle of \<open>loadStreams\<close>, and of \<open>refreshStreams\<close>, from state \<open>s\<close>.\<close>

definition load :: "string \<Rightarrow> 'n fetched \<Rightarrow> 'n hook \<Rightarrow> 'n hook" where
  "load tmsg r s = run (loadStreams tmsg r) s"

definition refresh :: "string \<Rightarrow> 'n fetched \<Rightarrow> 'n hook \<Rightarrow> 'n hook" where
  "refresh tmsg r s = run (refreshStreams tmsg r) s"

text \<open>The message with which V8 throws on \<open>null.title\<close>.\<close>

definition v8_null_title :: string where
  "v8_null_title = ''Cannot read properties of null (reading 'title')''"

subsection \<open>The validity invariant of the specification\<close>

text \<open>A candidate entry of the specification is an object: a value \<open>{...}\<close>, which
  excludes \<open>null\<close>, arrays and primitive values.\<close>

fun isObject :: "'n json \<Rightarrow> bool" where
  "isObject (JObj kvs) = True"
| "isObject v = False"

text \<open>
  The specification calls an entry valid when its three fields \<open>title\<close>, \<open>image\<close> and
  \<open>stream\<close> are all present and are text values. This is the specification's wording,
  to be compared with the callback \<open>is_stream\<close> of the source.
\<close>

definition has_text :: "'n json \<Rightarrow> string \<Rightarrow> bool" where
  "has_text v k =
     (case v of
        JObj kvs \<Rightarrow> (case map_of kvs k of Some (JStr s) \<Rightarrow> True | _ \<Rightarrow> False)
      | _ \<Rightarrow> False)"

definition CatalogEntry_valid :: "'n json \<Rightarrow> bool" where
  "CatalogEntry_valid v = (has_text v ''title'' \<and> has_text v ''image'' \<and> has_text v ''stream'')"

subsection \<open>The two shapes of a cycle\<close>

text \<open>The calls of a cycle whose \<open>try\<close> block is left by the exception \<open>e\<close> before
  \<open>setStreams\<close> is reached.\<close>

definition failure_calls :: "thrown \<Rightarrow> 'n call list" where
  "failure_calls e = [SetLoading True, SetError None] @ catch_block e @ [SetLoading False]"

text \<open>The calls of a cycle whose filter returned \<open>validStreams\<close> for the array \<open>data\<close>.\<close>

definition success_calls :: "'n json list \<Rightarrow> 'n json list \<Rightarrow> 'n call list" where
  "success_calls data validStreams =
     [SetLoading True, SetError None]
     @ (if length validStreams \<noteq> length data
        then [ConsoleWarn (''Filtered out '' @ decimal (length data - length validStreams)
                             @ '' invalid stream entries'')]
        else [])
     @ [SetStreams validStreams]
     @ (if validStreams = []
        then [SetError (Some ''No valid streams found''),
              Toast \<lparr>title = ''No Content'',
                     description = ''No valid streams were found in the data file.'',
                     variant = Some Destructive\<rparr>]
        else [])
     @ [SetLoading False]"

text \<open>The arguments of the \<open>setStreams\<close> calls of a call list, in order.\<close>

fun stream_writes :: "'n call list \<Rightarrow> 'n json list list" where
  "stream_writes [] = []"
| "stream_writes (SetStreams v # cs) = v # stream_writes cs"
| "stream_writes (c # cs) = stream_writes cs"

text \<open>The cycles that fail while fetching or parsing: the fetch rejects, the status is not
  OK, \<open>json()\<close> rejects, or the parsed value is not an array.\<close>

definition fails_in_fetch_or_parse :: "'n fetched \<Rightarrow> bool" where
  "fails_in_fetch_or_parse r =
     (case r of
        FetchRejects e \<Rightarrow> True
      | Response ok b \<Rightarrow>
          \<not> ok \<or> (case b of JsonRejects e \<Rightarrow> True | JsonResolves d \<Rightarrow> \<not> isArray d))"

subsection \<open>Example data\<close>

text \<open>The two objects of the response \<open>[{title:"A",image:"a.jpg",stream:"a.mp4"},{title:"B"}]\<close>,
  an object with fields beyond the three that are checked, and the state after a cycle
  that loaded the first object.\<close>

definition entry_A :: "int json" where
  "entry_A = JObj [(''title'', JStr ''A''), (''image'', JStr ''a.jpg''), (''stream'', JStr ''a.mp4'')]"

definition entry_B :: "int json" where
  "entry_B = JObj [(''title'', JStr ''B'')]"

definition entry_X :: "int json" where
  "entry_X = JObj [(''title'', JStr ''X''), (''year'', JNum 1999), (''image'', JStr ''x.jpg''),
                   (''stream'', JStr ''x.m3u8''), (''tags'', JArr [JStr ''hls''])]"

definition loaded_A :: "int hook" where
  "loaded_A = load v8_null_title (Response True (JsonResolves (JArr [entry_A]))) initial"

text \<open>
  \<open>refreshStreams(); refreshStreams()\<close> on a response \<open>[entry_A]\<close>: each call runs up to
  its \<open>await fetch\<close>, and the two continuations run afterwards.
\<close>

definition overlapped :: "int call list" where
  "overlapped =
     [Toast refreshing, SetLoading True, SetError None,
      Toast refreshing, SetLoading True, SetError None,
      SetStreams [entry_A], SetLoading False,
      SetStreams [entry_A], SetLoading False]"

section \<open>Properties\<close>

subsection \<open>Running a call list\<close>

lemma run_Nil [simp]: "run [] s = s"
  by (simp add: run_def)

lemma run_Cons [simp]: "run (c # cs) s = run cs (perform s c)"
  by (simp add: run_def)

lemma run_append [simp]: "run (cs @ ds) s = run ds (run cs s)"
  by (simp add: run_def)

lemma streams_run: "streams (run cs s) = last (streams s # stream_writes cs)"
proof (induction cs arbitrary: s)
  case Nil
  then show ?case by simp
next
  case (Cons c cs)
  then show ?case by (cases c) simp_all
qed

lemma set_stream_writes: "set (stream_writes cs) = {v. SetStreams v \<in> set cs}"
proof (induction cs)
  case Nil
  then show ?case by simp
next
  case (Cons c cs)
  then show ?case by (cases c) auto
qed

lemma SetStreams_in_set: "SetStreams v \<in> set cs \<longleftrightarrow> v \<in> set (stream_writes cs)"
  by (simp add: set_stream_writes)

subsection \<open>The filter callback against the validity invariant\<close>

lemma typeof_prop_string: "typeof_prop t = TString \<longleftrightarrow> (\<exists>s. t = Some (JStr s))"
proof (cases t)
  case None
  then show ?thesis by simp
next
  case (Some v)
  then show ?thesis by (cases v) simp_all
qed

lemma has_text_obj: "has_text (JObj kvs) k = (typeof_prop (map_of kvs k) = TString)"
  unfolding typeof_prop_string by (auto simp: has_text_def split: option.splits json.splits)

text \<open>On \<open>null\<close> the callback passes the \<open>typeof\<close> test and throws at \<open>stream.title\<close>.\<close>

lemma is_stream_null: "is_stream tmsg JNull = Inl (ErrorObj tmsg)"
  by (simp add: is_stream_def)

text \<open>On every other value the callback returns, and decides the validity invariant.\<close>

lemma is_stream_not_null:
  assumes "v \<noteq> JNull"
  shows "is_stream tmsg v = Inr (CatalogEntry_valid v)"
proof (cases v)
  case (JObj kvs)
  then show ?thesis
    by (simp add: is_stream_def CatalogEntry_valid_def has_text_obj)
qed (use assms in \<open>simp_all add: is_stream_def CatalogEntry_valid_def has_text_def\<close>)

lemma filter_streams_no_null:
  "JNull \<notin> set xs \<Longrightarrow> filter_streams tmsg xs = Inr (filter CatalogEntry_valid xs)"
  by (induction xs) (auto simp: is_stream_not_null)

lemma filter_streams_null:
  "JNull \<in> set xs \<Longrightarrow> filter_streams tmsg xs = Inl (ErrorObj tmsg)"
proof (induction xs)
  case Nil
  then show ?case by simp
next
  case (Cons x xs)
  show ?case
  proof (cases "x = JNull")
    case True
    then show ?thesis by (simp add: is_stream_null)
  next
    case False
    with Cons show ?thesis by (simp add: is_stream_not_null)
  qed
qed

lemma filter_streams_cases:
  "filter_streams tmsg xs =
     (if JNull \<in> set xs then Inl (ErrorObj tmsg) else Inr (filter CatalogEntry_valid xs))"
  by (simp add: filter_streams_null filter_streams_no_null)

subsection \<open>The calls of a cycle, path by path\<close>

lemma loadStreams_FetchRejects:
  "loadStreams tmsg (FetchRejects e) = failure_calls e"
  by (simp add: loadStreams_def try_block_def failure_calls_def)

lemma loadStreams_not_ok:
  "loadStreams tmsg (Response False b) = failure_calls (ErrorObj ''Failed to load streams data'')"
  by (simp add: loadStreams_def try_block_def failure_calls_def)

lemma loadStreams_JsonRejects:
  "loadStreams tmsg (Response True (JsonRejects e)) = failure_calls e"
  by (simp add: loadStreams_def try_block_def failure_calls_def)

lemma loadStreams_not_array:
  "\<not> isArray d \<Longrightarrow>
   loadStreams tmsg (Response True (JsonResolves d)) =
     failure_calls (ErrorObj ''Invalid streams data format'')"
  by (simp add: loadStreams_def try_block_def failure_calls_def)

lemma loadStreams_null:
  "JNull \<in> set xs \<Longrightarrow>
   loadStreams tmsg (Response True (JsonResolves (JArr xs))) = failure_calls (ErrorObj tmsg)"
  by (simp add: loadStreams_def try_block_def publish_def filter_streams_null failure_calls_def)

lemma loadStreams_filtered:
  "filter_streams tmsg xs = Inr vs \<Longrightarrow>
   loadStreams tmsg (Response True (JsonResolves (JArr xs))) = success_calls xs vs"
  by (simp add: loadStreams_def try_block_def publish_def success_calls_def)

lemma loadStreams_no_null:
  "JNull \<notin> set xs \<Longrightarrow>
   loadStreams tmsg (Response True (JsonResolves (JArr xs))) =
     success_calls xs (filter CatalogEntry_valid xs)"
  by (simp add: loadStreams_filtered filter_streams_no_null)

text \<open>Every cycle has one of the two shapes.\<close>

lemma loadStreams_shape:
  "(\<exists>e. loadStreams tmsg r = failure_calls e)
   \<or> (\<exists>xs vs. r = Response True (JsonResolves (JArr xs)) \<and> filter_streams tmsg xs = Inr vs
         \<and> loadStreams tmsg r = success_calls xs vs)"
proof (cases r)
  case (FetchRejects e)
  then show ?thesis by (auto simp: loadStreams_FetchRejects)
next
  case (Response ok b)
  show ?thesis
  proof (cases ok)
    case False
    with Response show ?thesis by (auto simp: loadStreams_not_ok)
  next
    case True
    show ?thesis
    proof (cases b)
      case (JsonRejects e)
      with Response True show ?thesis by (auto simp: loadStreams_JsonRejects)
    next
      case (JsonResolves d)
      show ?thesis
      proof (cases d)
        case (JArr xs)
        show ?thesis
        proof (cases "JNull \<in> set xs")
          case True
          with Response \<open>ok\<close> JsonResolves JArr show ?thesis
            by (auto simp: loadStreams_null)
        next
          case False
          with Response \<open>ok\<close> JsonResolves JArr show ?thesis
            by (auto simp: loadStreams_no_null filter_streams_no_null)
        qed
      qed (use Response True JsonResolves in \<open>auto simp: loadStreams_not_array\<close>)
    qed
  qed
qed

lemma loadStreams_fails:
  assumes "fails_in_fetch_or_parse r"
  shows "\<exists>e. loadStreams tmsg r = failure_calls e"
proof (cases r)
  case (FetchRejects e)
  then show ?thesis by (auto simp: loadStreams_FetchRejects)
next
  case (Response ok b)
  show ?thesis
  proof (cases ok)
    case False
    with Response show ?thesis by (auto simp: loadStreams_not_ok)
  next
    case True
    show ?thesis
    proof (cases b)
      case (JsonRejects e)
      with Response True show ?thesis by (auto simp: loadStreams_JsonRejects)
    next
      case (JsonResolves d)
      with assms Response True have "\<not> isArray d"
        by (simp add: fails_in_fetch_or_parse_def)
      with Response True JsonResolves show ?thesis by (auto simp: loadStreams_not_array)
    qed
  qed
qed

subsection \<open>The state after each shape\<close>

lemma run_failure_calls:
  "run (failure_calls e) s =
     s\<lparr>loading := False, error := Some (errorMessage e),
       toasts := toasts s @ [\<lparr>title = ''Loading Error'', description = errorMessage e,
                               variant = Some Destructive\<rparr>]\<rparr>"
  by (simp add: failure_calls_def catch_block_def)

lemma streams_run_success [simp]: "streams (run (success_calls xs vs) s) = vs"
  by (simp add: success_calls_def)

lemma error_run_success [simp]:
  "error (run (success_calls xs vs) s) =
     (if vs = [] then Some ''No valid streams found'' else None)"
  by (simp add: success_calls_def)

lemma loading_run_success [simp]: "loading (run (success_calls xs vs) s) = False"
  by (simp add: success_calls_def)

lemma stream_writes_failure [simp]: "stream_writes (failure_calls e) = []"
  by (simp add: failure_calls_def catch_block_def)

lemma stream_writes_success [simp]: "stream_writes (success_calls xs vs) = [vs]"
  by (simp add: success_calls_def)

lemma stream_writes_loadStreams:
  "stream_writes (loadStreams tmsg r) = [] \<or> (\<exists>vs. stream_writes (loadStreams tmsg r) = [vs])"
  using loadStreams_shape [of tmsg r] by auto

text \<open>Whatever a cycle ends in, the state is in one of three situations; in the third the
  entries are those from before the cycle.\<close>

lemma cycle_end_states:
  "(streams (load tmsg r s) \<noteq> [] \<and> error (load tmsg r s) = None)
   \<or> (streams (load tmsg r s) = [] \<and> error (load tmsg r s) = Some ''No valid streams found'')
   \<or> (\<exists>e. error (load tmsg r s) = Some (errorMessage e) \<and> streams (load tmsg r s) = streams s)"
proof -
  from loadStreams_shape [of tmsg r] show ?thesis
  proof
    assume "\<exists>e. loadStreams tmsg r = failure_calls e"
    then obtain e where "loadStreams tmsg r = (failure_calls e :: 'a call list)" ..
    then have "error (load tmsg r s) = Some (errorMessage e) \<and> streams (load tmsg r s) = streams s"
      by (simp add: load_def run_failure_calls)
    then show ?thesis by blast
  next
    assume "\<exists>xs vs. r = Response True (JsonResolves (JArr xs)) \<and> filter_streams tmsg xs = Inr vs
                \<and> loadStreams tmsg r = success_calls xs vs"
    then obtain xs vs where "loadStreams tmsg r = success_calls xs vs" by blast
    then show ?thesis by (simp add: load_def)
  qed
qed

subsection \<open>Interleaved cycles\<close>

text \<open>Two cycles that make the same calls, interleaved in any way, leave the entries that
  one of them leaves, as long as a cycle calls \<open>setStreams\<close> at most once.\<close>

lemma shuffles_self_streams:
  assumes "zs \<in> shuffles cs cs"
    and "stream_writes cs = [] \<or> (\<exists>vs. stream_writes cs = [vs])"
  shows "streams (run zs s) = streams (run cs s)"
proof -
  from assms(1) have "set zs = set cs \<union> set cs"
    by (rule set_shuffles)
  then have "set zs = set cs" by simp
  then have eq: "set (stream_writes zs) = set (stream_writes cs)"
    by (simp only: set_stream_writes)
  from assms(2) show ?thesis
  proof
    assume e: "stream_writes cs = []"
    with eq have "set (stream_writes zs) = {}" by simp
    then have "stream_writes zs = []" by (simp only: set_empty)
    with e show ?thesis by (simp only: streams_run)
  next
    assume "\<exists>vs. stream_writes cs = [vs]"
    then obtain vs where v: "stream_writes cs = [vs]" ..
    with eq have s: "set (stream_writes zs) = {vs}" by simp
    have ne: "stream_writes zs \<noteq> []"
    proof
      assume "stream_writes zs = []"
      with s show False by simp
    qed
    then have "last (stream_writes zs) \<in> set (stream_writes zs)" by (rule last_in_set)
    with s have l: "last (stream_writes zs) = vs" by simp
    have "last (streams s # stream_writes zs) = last (stream_writes zs)"
      using ne by simp
    with l v show ?thesis by (simp only: streams_run) simp
  qed
qed

lemma append_in_shuffles: "xs @ ys \<in> shuffles xs ys"
proof (induction xs)
  case Nil
  then show ?case by simp
next
  case (Cons x xs)
  then show ?case by (simp add: Cons_in_shuffles_leftI)
qed

subsection \<open>Facts about the example data\<close>

lemma valid_A [simp]: "CatalogEntry_valid entry_A"
  by (simp add: CatalogEntry_valid_def has_text_def entry_A_def)

lemma invalid_B [simp]: "\<not> CatalogEntry_valid entry_B"
  by (simp add: CatalogEntry_valid_def has_text_def entry_B_def)

lemma valid_X [simp]: "CatalogEntry_valid entry_X"
  by (simp add: CatalogEntry_valid_def has_text_def entry_X_def)

lemma entry_A_not_null [simp]: "entry_A \<noteq> JNull" "JNull \<noteq> entry_A"
  by (simp_all add: entry_A_def)

lemma entry_B_not_null [simp]: "entry_B \<noteq> JNull" "JNull \<noteq> entry_B"
  by (simp_all add: entry_B_def)

lemma entry_X_not_null [simp]: "entry_X \<noteq> JNull" "JNull \<noteq> entry_X"
  by (simp_all add: entry_X_def)

lemma streams_loaded_A [simp]: "streams loaded_A = [entry_A]"
  by (simp add: loaded_A_def load_def loadStreams_no_null)

lemma error_loaded_A [simp]: "error loaded_A = None"
  by (simp add: loaded_A_def load_def loadStreams_no_null)

lemma streams_initial [simp]: "streams initial = []"
  by (simp add: initial_def)

lemma refreshStreams_A:
  "refreshStreams v8_null_title (Response True (JsonResolves (JArr [entry_A]))) =
     [Toast refreshing, SetLoading True, SetError None, SetStreams [entry_A], SetLoading False]"
  by (simp add: refreshStreams_def loadStreams_no_null success_calls_def)

text \<open>Scenario A of the specification: the second object is dropped, which is only logged.\<close>

lemma decimal_1: "decimal (Suc 0) = ''1''"
  by code_simp

lemma partial_invalidity_is_only_warned:
  "warnings (load tmsg (Response True (JsonResolves (JArr [entry_A, entry_B]))) initial)
     = [''Filtered out 1 invalid stream entries'']
   \<and> toasts (load tmsg (Response True (JsonResolves (JArr [entry_A, entry_B]))) initial) = []
   \<and> error (load tmsg (Response True (JsonResolves (JArr [entry_A, entry_B]))) initial) = None"
  by (simp add: load_def loadStreams_no_null success_calls_def initial_def decimal_1)

section \<open>The claims\<close>

text \<open>
  Claim C1. For a response that parses to an array \<open>xs\<close> of \<open>N\<close> objects of which \<open>K\<close>
  satisfy the validity invariant, a cycle publishes exactly the valid elements: \<open>K\<close>
  entries, \<open>K \<le> N\<close>, in the order they have in the response; and \<open>error\<close> is set if
  and only if \<open>K = 0\<close>, to \<open>No valid streams found\<close>.
\<close>

theorem load_publishes_valid_entries_in_order:
  assumes "list_all isObject xs"
  shows "let s' = load tmsg (Response True (JsonResolves (JArr xs))) s;
             K = length (filter CatalogEntry_valid xs)
         in streams s' = filter CatalogEntry_valid xs
          \<and> length (streams s') = K
          \<and> K \<le> length xs
          \<and> subseq (streams s') xs
          \<and> error s' = (if K = 0 then Some ''No valid streams found'' else None)"
proof -
  have "JNull \<notin> set xs"
  proof
    assume "JNull \<in> set xs"
    with assms have "isObject (JNull :: 'a json)" by (auto simp: list_all_iff)
    then show False by simp
  qed
  then have "load tmsg (Response True (JsonResolves (JArr xs))) s
               = run (success_calls xs (filter CatalogEntry_valid xs)) s"
    by (simp add: load_def loadStreams_no_null)
  then show ?thesis by (simp add: Let_def)
qed

theorem load_publishes_valid_entries_in_order_witness:
  "list_all isObject [entry_A, entry_B]
   \<and> streams (load v8_null_title (Response True (JsonResolves (JArr [entry_A, entry_B]))) initial)
       = [entry_A]
   \<and> error (load v8_null_title (Response True (JsonResolves (JArr [entry_A, entry_B]))) initial)
       = None"
proof -
  have h: "list_all isObject [entry_A, entry_B]"
    by (simp add: entry_A_def entry_B_def)
  from load_publishes_valid_entries_in_order [OF h, of v8_null_title initial]
  show ?thesis using h by (simp add: Let_def)
qed

text \<open>
  Claim C2 says that a cycle ends with entries and no error, or with no entries and the
  error \<open>No valid streams found\<close>, or with the error of a transport or format failure.
  The code leaves all three when the array holds \<open>null\<close>: after a catalog with
  \<open>entry_A\<close> was loaded, the response \<open>[null]\<close> is fetched and parsed without failure and
  is an array, yet the cycle ends with the entries still there and \<open>error\<close> set to the
  message of the \<open>TypeError\<close> thrown inside the filter.
\<close>

theorem null_element_ends_outside_the_three_states:
  "streams (load v8_null_title (Response True (JsonResolves (JArr [JNull]))) loaded_A) = [entry_A]
   \<and> error (load v8_null_title (Response True (JsonResolves (JArr [JNull]))) loaded_A)
       = Some ''Cannot read properties of null (reading 'title')''"
  by (simp add: load_def loadStreams_null run_failure_calls v8_null_title_def)

text \<open>
  Claim C3 says that every element failing the validity invariant, \<open>null\<close> included, is
  dropped without the cycle failing. For every element other than \<open>null\<close> the callback
  decides the invariant (\<open>is_stream_not_null\<close>, \<open>filter_streams_no_null\<close>), and what is
  dropped is only counted in a warning. On \<open>null\<close> the guard \<open>typeof stream === 'object'\<close>
  holds and \<open>stream.title\<close> throws: for the response \<open>[entry_A, null]\<close> the filter
  ends with the exception, nothing is published and \<open>error\<close> is the exception's message.
\<close>

theorem null_element_aborts_the_filter:
  "filter_streams v8_null_title [entry_A, JNull] = Inl (ErrorObj v8_null_title)
   \<and> streams (load v8_null_title (Response True (JsonResolves (JArr [entry_A, JNull]))) initial)
       = []
   \<and> error (load v8_null_title (Response True (JsonResolves (JArr [entry_A, JNull]))) initial)
       = Some v8_null_title"
proof -
  have "JNull \<in> set [entry_A, JNull]" by simp
  then show ?thesis
    by (simp only: load_def loadStreams_null run_failure_calls filter_streams_null) simp
qed

text \<open>
  Claim C4, as amended. For a response with OK status whose parsed value is not an array,
  the cycle fails: the \<open>try\<close> block is left by an \<open>Error\<close> with the message
  \<open>Invalid streams data format\<close> and the \<open>catch\<close> block runs, so that \<open>error\<close> is set
  to that message, a \<open>Loading Error\<close> notification shows it, the entries stay as they
  were and \<open>loading\<close> ends false. For a response with OK status whose body fails to
  parse, the cycle fails in the same way with what \<open>json()\<close> rejected with: \<open>error\<close> and
  the notification carry the message of that error (\<open>Failed to load streams\<close> if it is not
  an \<open>Error\<close>).
\<close>

theorem format_failure_messages:
  "snd (try_block tmsg (Response True (JsonRejects e))) = Some e
   \<and> loadStreams tmsg (Response True (JsonRejects e))
       = [SetLoading True, SetError None] @ catch_block e @ [SetLoading False]
   \<and> error (load tmsg (Response True (JsonRejects e)) s) = Some (errorMessage e)
   \<and> toasts (load tmsg (Response True (JsonRejects e)) s)
       = toasts s @ [\<lparr>title = ''Loading Error'', description = errorMessage e,
                       variant = Some Destructive\<rparr>]
   \<and> streams (load tmsg (Response True (JsonRejects e)) s) = streams s
   \<and> loading (load tmsg (Response True (JsonRejects e)) s) = False
   \<and> (\<not> isArray d \<longrightarrow>
        snd (try_block tmsg (Response True (JsonResolves d)))
          = Some (ErrorObj ''Invalid streams data format'')
        \<and> loadStreams tmsg (Response True (JsonResolves d))
            = [SetLoading True, SetError None]
              @ catch_block (ErrorObj ''Invalid streams data format'') @ [SetLoading False]
        \<and> error (load tmsg (Response True (JsonResolves d)) s)
            = Some ''Invalid streams data format''
        \<and> toasts (load tmsg (Response True (JsonResolves d)) s)
            = toasts s @ [\<lparr>title = ''Loading Error'',
                            description = ''Invalid streams data format'',
                            variant = Some Destructive\<rparr>]
        \<and> streams (load tmsg (Response True (JsonResolves d)) s) = streams s
        \<and> loading (load tmsg (Response True (JsonResolves d)) s) = False)"
proof -
  have t1: "snd (try_block tmsg (Response True (JsonRejects e))) = Some e"
    by (simp add: try_block_def)
  have c1: "loadStreams tmsg (Response True (JsonRejects e))
              = [SetLoading True, SetError None] @ catch_block e @ [SetLoading False]"
    by (simp only: loadStreams_JsonRejects failure_calls_def)
  have s1: "error (load tmsg (Response True (JsonRejects e)) s) = Some (errorMessage e)
     \<and> toasts (load tmsg (Response True (JsonRejects e)) s)
         = toasts s @ [\<lparr>title = ''Loading Error'', description = errorMessage e,
                         variant = Some Destructive\<rparr>]
     \<and> streams (load tmsg (Response True (JsonRejects e)) s) = streams s
     \<and> loading (load tmsg (Response True (JsonRejects e)) s) = False"
    by (simp add: load_def loadStreams_JsonRejects run_failure_calls)
  have t2: "snd (try_block tmsg (Response True (JsonResolves d)))
              = Some (ErrorObj ''Invalid streams data format'')" if "\<not> isArray d"
    using that by (simp add: try_block_def)
  have c2: "loadStreams tmsg (Response True (JsonResolves d))
              = [SetLoading True, SetError None]
                @ catch_block (ErrorObj ''Invalid streams data format'') @ [SetLoading False]"
    if "\<not> isArray d"
    using loadStreams_not_array [OF that, of tmsg] by (simp add: failure_calls_def)
  have s2: "error (load tmsg (Response True (JsonResolves d)) s)
              = Some ''Invalid streams data format''
     \<and> toasts (load tmsg (Response True (JsonResolves d)) s)
         = toasts s @ [\<lparr>title = ''Loading Error'',
                         description = ''Invalid streams data format'',
                         variant = Some Destructive\<rparr>]
     \<and> streams (load tmsg (Response True (JsonResolves d)) s) = streams s
     \<and> loading (load tmsg (Response True (JsonResolves d)) s) = False" if "\<not> isArray d"
    using that by (simp add: load_def loadStreams_not_array run_failure_calls)
  from t1 c1 s1 t2 c2 s2 show ?thesis by blast
qed

theorem format_failure_messages_witness:
  "\<not> isArray (JStr ''not an array'' :: int json)
   \<and> loadStreams v8_null_title (Response True (JsonResolves (JStr ''not an array'' :: int json)))
       = [SetLoading True, SetError None,
          SetError (Some ''Invalid streams data format''),
          Toast \<lparr>title = ''Loading Error'', description = ''Invalid streams data format'',
                 variant = Some Destructive\<rparr>,
          SetLoading False]
   \<and> error (load v8_null_title (Response True (JsonResolves (JStr ''not an array'')))
              (initial :: int hook))
       = Some ''Invalid streams data format''
   \<and> toasts (load v8_null_title (Response True (JsonResolves (JStr ''not an array'')))
              (initial :: int hook))
       = [\<lparr>title = ''Loading Error'', description = ''Invalid streams data format'',
            variant = Some Destructive\<rparr>]
   \<and> error (load v8_null_title (Response True (JsonRejects (ErrorObj ''Unexpected token'')))
              (initial :: int hook))
       = Some ''Unexpected token''
   \<and> toasts (load v8_null_title (Response True (JsonRejects (ErrorObj ''Unexpected token'')))
              (initial :: int hook))
       = [\<lparr>title = ''Loading Error'', description = ''Unexpected token'',
            variant = Some Destructive\<rparr>]"
proof -
  have h: "\<not> isArray (JStr ''not an array'' :: int json)" by simp
  note f = format_failure_messages [of v8_null_title "ErrorObj ''Unexpected token''"
      "initial :: int hook" "JStr ''not an array''"]
  from f h have
    "loadStreams v8_null_title (Response True (JsonResolves (JStr ''not an array'' :: int json)))
       = [SetLoading True, SetError None]
         @ catch_block (ErrorObj ''Invalid streams data format'') @ [SetLoading False]"
    by blast
  then have c: "loadStreams v8_null_title
                  (Response True (JsonResolves (JStr ''not an array'' :: int json)))
       = [SetLoading True, SetError None,
          SetError (Some ''Invalid streams data format''),
          Toast \<lparr>title = ''Loading Error'', description = ''Invalid streams data format'',
                 variant = Some Destructive\<rparr>,
          SetLoading False]"
    by (simp add: catch_block_def)
  have t0: "toasts (initial :: int hook) = []" by (simp add: initial_def)
  from f h have e2: "error (load v8_null_title
        (Response True (JsonResolves (JStr ''not an array''))) (initial :: int hook))
       = Some ''Invalid streams data format''"
    by blast
  from f h have "toasts (load v8_null_title
        (Response True (JsonResolves (JStr ''not an array''))) (initial :: int hook))
       = toasts (initial :: int hook)
         @ [\<lparr>title = ''Loading Error'', description = ''Invalid streams data format'',
              variant = Some Destructive\<rparr>]"
    by blast
  with t0 have n2: "toasts (load v8_null_title
        (Response True (JsonResolves (JStr ''not an array''))) (initial :: int hook))
       = [\<lparr>title = ''Loading Error'', description = ''Invalid streams data format'',
            variant = Some Destructive\<rparr>]"
    by simp
  from f have "error (load v8_null_title
        (Response True (JsonRejects (ErrorObj ''Unexpected token''))) (initial :: int hook))
       = Some (errorMessage (ErrorObj ''Unexpected token''))"
    by blast
  then have e1: "error (load v8_null_title
        (Response True (JsonRejects (ErrorObj ''Unexpected token''))) (initial :: int hook))
       = Some ''Unexpected token''"
    by simp
  from f have "toasts (load v8_null_title
        (Response True (JsonRejects (ErrorObj ''Unexpected token''))) (initial :: int hook))
       = toasts (initial :: int hook)
         @ [\<lparr>title = ''Loading Error'',
              description = errorMessage (ErrorObj ''Unexpected token''),
              variant = Some Destructive\<rparr>]"
    by blast
  with t0 have n1: "toasts (load v8_null_title
        (Response True (JsonRejects (ErrorObj ''Unexpected token''))) (initial :: int hook))
       = [\<lparr>title = ''Loading Error'', description = ''Unexpected token'',
            variant = Some Destructive\<rparr>]"
    by simp
  from h c e2 n2 e1 n1 show ?thesis by blast
qed

text \<open>Claim C4 as stated fails: when the body is not JSON, \<open>json()\<close> rejects with a
  \<open>SyntaxError\<close>, and \<open>error\<close> is that error's message.\<close>

theorem parse_failure_message_counterexample:
  "error (load v8_null_title
            (Response True (JsonRejects (ErrorObj ''Unexpected end of JSON input'')))
            (initial :: int hook))
     \<noteq> Some ''Invalid streams data format''"
  by (simp add: load_def loadStreams_JsonRejects run_failure_calls)

text \<open>
  Claim C5. On a transport failure \<open>error\<close> is set to the message of the error that
  the \<open>catch\<close> block receives: the message of the rejection when the fetch rejects with an
  \<open>Error\<close>, \<open>Failed to load streams\<close> when it rejects with anything else, and the
  message of the error thrown at line 18, \<open>Failed to load streams data\<close>, when the
  status is not OK. A \<open>Loading Error\<close> notification with that message is shown, and
  \<open>loading\<close> ends false.
\<close>

theorem transport_failure_reports_error:
  "error (load tmsg (FetchRejects (ErrorObj m)) s) = Some m
   \<and> error (load tmsg (FetchRejects NonError) s) = Some ''Failed to load streams''
   \<and> error (load tmsg (Response False b) s) = Some ''Failed to load streams data''
   \<and> toasts (load tmsg (FetchRejects e) s)
       = toasts s @ [\<lparr>title = ''Loading Error'', description = errorMessage e,
                       variant = Some Destructive\<rparr>]
   \<and> toasts (load tmsg (Response False b) s)
       = toasts s @ [\<lparr>title = ''Loading Error'', description = ''Failed to load streams data'',
                       variant = Some Destructive\<rparr>]
   \<and> loading (load tmsg (FetchRejects e) s) = False
   \<and> loading (load tmsg (Response False b) s) = False"
  by (simp add: load_def loadStreams_FetchRejects loadStreams_not_ok run_failure_calls)

text \<open>
  Claim C6. A cycle that fails while fetching or parsing (the fetch rejects, the status
  is not OK, the body does not parse, or the parsed value is not an array) leaves the
  published entries as they were before the cycle.
\<close>

theorem failed_load_keeps_entries:
  assumes "fails_in_fetch_or_parse r"
  shows "streams (load tmsg r s) = streams s"
proof -
  from assms obtain e where "loadStreams tmsg r = (failure_calls e :: 'a call list)"
    using loadStreams_fails by blast
  then show ?thesis by (simp add: load_def run_failure_calls)
qed

theorem failed_load_keeps_entries_witness:
  "fails_in_fetch_or_parse (FetchRejects (ErrorObj ''Failed to fetch'') :: int fetched)
   \<and> fails_in_fetch_or_parse (Response True (JsonResolves (JNull :: int json)))
   \<and> streams (load v8_null_title (FetchRejects (ErrorObj ''Failed to fetch'')) loaded_A)
       = [entry_A]
   \<and> streams (load v8_null_title (Response True (JsonResolves JNull)) loaded_A) = [entry_A]"
proof -
  have h1: "fails_in_fetch_or_parse (FetchRejects (ErrorObj ''Failed to fetch'') :: int fetched)"
    and h2: "fails_in_fetch_or_parse (Response True (JsonResolves (JNull :: int json)))"
    by (simp_all add: fails_in_fetch_or_parse_def)
  from failed_load_keeps_entries [OF h1, of v8_null_title loaded_A]
    failed_load_keeps_entries [OF h2, of v8_null_title loaded_A] h1 h2
  show ?thesis by simp
qed

text \<open>
  Claim C7. Every cycle begins with \<open>setLoading(true)\<close> and \<open>setError(null)\<close>, after
  which \<open>loading\<close> is true and \<open>error\<close> is unset; it ends with \<open>setLoading(false)\<close>,
  whatever the fetch delivers and also when the filter throws; \<open>setLoading\<close> is not
  called in between; and \<open>loading\<close> is false after the cycle.
\<close>

theorem loadStreams_brackets_loading:
  "(\<exists>mid. loadStreams tmsg r = [SetLoading True, SetError None] @ mid @ [SetLoading False]
          \<and> (\<forall>b. SetLoading b \<notin> set mid))
   \<and> loading (run [SetLoading True, SetError None] s) = True
   \<and> error (run [SetLoading True, SetError None] s) = None
   \<and> loading (load tmsg r s) = False"
proof -
  have "\<exists>mid. loadStreams tmsg r = [SetLoading True, SetError None] @ mid @ [SetLoading False]
          \<and> (\<forall>b. SetLoading b \<notin> set mid)"
    using loadStreams_shape [of tmsg r]
    by (auto simp: failure_calls_def catch_block_def success_calls_def)
  moreover have "loading (load tmsg r s) = False"
    using loadStreams_shape [of tmsg r] by (auto simp: load_def run_failure_calls)
  ultimately show ?thesis by simp
qed

text \<open>
  Claim C8. \<open>refreshStreams\<close> shows the \<open>Refreshing...\<close> notification and then makes the
  calls of \<open>loadStreams\<close>. When the source delivers the same to both cycles (in
  particular the same successful response), two refreshes one after the other, and two
  refreshes whose calls are interleaved in any order, end with the same published entries
  as a single load.
\<close>

theorem refresh_twice_publishes_same_entries:
  "refreshStreams tmsg r = Toast refreshing # loadStreams tmsg r
   \<and> streams (refresh tmsg r (refresh tmsg r s)) = streams (load tmsg r s)
   \<and> (\<forall>zs \<in> shuffles (refreshStreams tmsg r) (refreshStreams tmsg r).
         streams (run zs s) = streams (load tmsg r s))"
proof -
  have shape: "refreshStreams tmsg r = Toast refreshing # loadStreams tmsg r"
    by (simp add: refreshStreams_def)
  have w: "stream_writes (refreshStreams tmsg r) = []
           \<or> (\<exists>vs. stream_writes (refreshStreams tmsg r) = [vs])"
    using stream_writes_loadStreams [of tmsg r] by (simp add: shape)
  have one: "streams (run (refreshStreams tmsg r) s) = streams (load tmsg r s)"
    by (simp add: shape load_def streams_run)
  have all: "streams (run zs s) = streams (load tmsg r s)"
    if "zs \<in> shuffles (refreshStreams tmsg r) (refreshStreams tmsg r)" for zs
    using shuffles_self_streams [OF that w, of s] one by simp
  have "refreshStreams tmsg r @ refreshStreams tmsg r
          \<in> shuffles (refreshStreams tmsg r) (refreshStreams tmsg r)"
    by (rule append_in_shuffles)
  from all [OF this] have "streams (refresh tmsg r (refresh tmsg r s)) = streams (load tmsg r s)"
    by (simp add: refresh_def)
  with shape all show ?thesis by blast
qed

theorem refresh_twice_publishes_same_entries_witness:
  "overlapped \<in> shuffles (refreshStreams v8_null_title (Response True (JsonResolves (JArr [entry_A]))))
                         (refreshStreams v8_null_title (Response True (JsonResolves (JArr [entry_A]))))
   \<and> streams (run overlapped initial) = [entry_A]
   \<and> streams (load v8_null_title (Response True (JsonResolves (JArr [entry_A]))) initial)
       = [entry_A]"
proof -
  have h: "overlapped \<in> shuffles
             (refreshStreams v8_null_title (Response True (JsonResolves (JArr [entry_A]))))
             (refreshStreams v8_null_title (Response True (JsonResolves (JArr [entry_A]))))"
    unfolding refreshStreams_A overlapped_def
    by (rule Cons_in_shuffles_leftI Cons_in_shuffles_rightI)+ simp
  have r: "streams (run overlapped initial) = [entry_A]"
    by (simp add: overlapped_def)
  from refresh_twice_publishes_same_entries
         [of v8_null_title "Response True (JsonResolves (JArr [entry_A]))" initial]
  have "streams (run overlapped initial)
          = streams (load v8_null_title (Response True (JsonResolves (JArr [entry_A]))) initial)"
    using h by blast
  with h r show ?thesis by simp
qed

text \<open>
  Claim C9. When the filter returns no element, the cycle replaces the published entries
  by the empty list, whatever was published before, and sets \<open>error\<close> to
  \<open>No valid streams found\<close>.
\<close>

theorem empty_result_replaces_entries:
  assumes "filter_streams tmsg xs = Inr []"
  shows "streams (load tmsg (Response True (JsonResolves (JArr xs))) s) = []
         \<and> error (load tmsg (Response True (JsonResolves (JArr xs))) s)
             = Some ''No valid streams found''"
  using assms by (simp add: load_def loadStreams_filtered)

theorem empty_result_replaces_entries_witness:
  "filter_streams v8_null_title [entry_B] = Inr []
   \<and> streams loaded_A = [entry_A]
   \<and> streams (load v8_null_title (Response True (JsonResolves (JArr [entry_B]))) loaded_A) = []
   \<and> error (load v8_null_title (Response True (JsonResolves (JArr [entry_B]))) loaded_A)
       = Some ''No valid streams found''"
proof -
  have h: "filter_streams v8_null_title [entry_B] = Inr []"
    by (simp add: filter_streams_cases)
  from empty_result_replaces_entries [OF h, of loaded_A] h show ?thesis by simp
qed

text \<open>
  Claim C10. Whenever a cycle calls \<open>setStreams\<close>, the response was an array and the list
  published is the list of its valid elements, as they are in the response and in that
  order: an element is kept or dropped whole, with every field it has.
\<close>

theorem published_entries_are_response_elements:
  assumes "SetStreams vs \<in> set (loadStreams tmsg r)"
  shows "\<exists>xs. r = Response True (JsonResolves (JArr xs))
              \<and> vs = filter CatalogEntry_valid xs
              \<and> subseq vs xs
              \<and> streams (load tmsg r s) = vs"
proof -
  from assms have m: "vs \<in> set (stream_writes (loadStreams tmsg r))"
    by (simp only: SetStreams_in_set)
  from loadStreams_shape [of tmsg r] show ?thesis
  proof
    assume "\<exists>e. loadStreams tmsg r = failure_calls e"
    with m show ?thesis by auto
  next
    assume "\<exists>xs ws. r = Response True (JsonResolves (JArr xs)) \<and> filter_streams tmsg xs = Inr ws
                \<and> loadStreams tmsg r = success_calls xs ws"
    then obtain xs ws where r: "r = Response True (JsonResolves (JArr xs))"
      and f: "filter_streams tmsg xs = Inr ws"
      and l: "loadStreams tmsg r = success_calls xs ws" by blast
    from m l have "ws = vs" by simp
    with f have v: "vs = filter CatalogEntry_valid xs"
      by (simp add: filter_streams_cases split: if_splits)
    then have "subseq vs xs" by simp
    moreover from l \<open>ws = vs\<close> have "streams (load tmsg r s) = vs" by (simp add: load_def)
    ultimately show ?thesis using r v by blast
  qed
qed

theorem published_entries_are_response_elements_witness:
  "SetStreams [entry_X]
     \<in> set (loadStreams v8_null_title (Response True (JsonResolves (JArr [entry_B, entry_X]))))
   \<and> streams (load v8_null_title (Response True (JsonResolves (JArr [entry_B, entry_X]))) initial)
       = [entry_X]
   \<and> get_prop v8_null_title entry_X ''year'' = Inr (Some (JNum 1999))"
proof -
  have h: "SetStreams [entry_X]
     \<in> set (loadStreams v8_null_title (Response True (JsonResolves (JArr [entry_B, entry_X]))))"
    by (simp add: loadStreams_no_null SetStreams_in_set)
  from published_entries_are_response_elements [OF h, of initial]
  have p: "streams (load v8_null_title (Response True (JsonResolves (JArr [entry_B, entry_X])))
             initial) = [entry_X]"
    by blast
  have y: "get_prop v8_null_title entry_X ''year'' = Inr (Some (JNum 1999))"
    by (simp add: entry_X_def)
  from h p y show ?thesis by blast
qed

end
